theory Spec2Isabelle
  imports Main "HOL-Library.Multiset"
begin

section \<open>Platform values used by the article page\<close>

subsection \<open>Dates\<close>

text \<open>
  A \<open>Date\<close> holds a time value: milliseconds since 1970-01-01T00:00:00Z. Every date of an
  article has passed the collection schema (\<open>z.coerce.date()\<close>), which rejects the invalid
  date, so a date here always carries a time value.
\<close>

datatype Date = Date int

fun getTime :: "Date \<Rightarrow> int" where
  "getTime (Date t) = t"

definition msPerDay :: int where
  "msPerDay = 86400000"

definition Day :: "int \<Rightarrow> int" where
  "Day t = t div msPerDay"

text \<open>
  The day number of the first day of a year, and the time value of its start.
\<close>

definition DayFromYear :: "int \<Rightarrow> int" where
  "DayFromYear y =
     365 * (y - 1970) + (y - 1969) div 4 - (y - 1901) div 100 + (y - 1601) div 400"

definition TimeFromYear :: "int \<Rightarrow> int" where
  "TimeFromYear y = msPerDay * DayFromYear y"

text \<open>
  The year of a time value is the largest \<open>y\<close> with \<open>TimeFromYear y \<le> t\<close>. It is computed
  from the day number counted from 0000-03-01: the eras of 400 years (146097 days), the
  centuries of an era (36524 days, the last one a day longer), the four-year cycles of a
  century (1461 days) and the years of a cycle (365 days, the last one a day longer)
  are counted off, and the days from the 306th of such a year on, January and February,
  belong to the next civil year.
\<close>

definition YearFromTime :: "int \<Rightarrow> int" where
  "YearFromTime t =
     (let z = Day t + 719468;
          n400 = z div 146097;
          r = z mod 146097;
          n100 = min 3 (r div 36524);
          r1 = r - 36524 * n100;
          n4 = r1 div 1461;
          r2 = r1 mod 1461;
          n1 = min 3 (r2 div 365);
          doy = r2 - 365 * n1
      in 400 * n400 + 100 * n100 + 4 * n4 + n1 + (if doy < 306 then 0 else 1))"

text \<open>
  \<open>getFullYear\<close> reads the year in local time. The offset of local time from UTC at a
  given time value, in milliseconds, belongs to the host: it is the parameter \<open>tza\<close>.
\<close>

definition getFullYear :: "(int \<Rightarrow> int) \<Rightarrow> Date \<Rightarrow> int" where
  "getFullYear tza d = YearFromTime (getTime d + tza (getTime d))"

subsection \<open>Arrays: sort and reduce\<close>

text \<open>
  \<open>Array.prototype.sort\<close> with a comparator is a stable sort: \<open>a\<close> stays before \<open>b\<close>
  unless the comparator says \<open>cmp a b > 0\<close>. With a consistent comparator its result is
  determined, whatever algorithm the engine runs; it is computed here by insertion from
  the right.
\<close>

fun insert_cmp :: "('a \<Rightarrow> 'a \<Rightarrow> int) \<Rightarrow> 'a \<Rightarrow> 'a list \<Rightarrow> 'a list" where
  "insert_cmp cmp x [] = [x]"
| "insert_cmp cmp x (y # ys) =
     (if cmp x y \<le> 0 then x # y # ys else y # insert_cmp cmp x ys)"

definition Array_sort :: "('a \<Rightarrow> 'a \<Rightarrow> int) \<Rightarrow> 'a list \<Rightarrow> 'a list" where
  "Array_sort cmp xs = foldr (insert_cmp cmp) xs []"

datatype js_error = TypeError

text \<open>
  \<open>Array.prototype.reduce\<close> with an initial value; an exception thrown by the callback
  ends the reduction.
\<close>

fun Array_reduce :: "('b \<Rightarrow> 'a \<Rightarrow> js_error + 'b) \<Rightarrow> 'a list \<Rightarrow> 'b \<Rightarrow> js_error + 'b" where
  "Array_reduce f [] acc = Inr acc"
| "Array_reduce f (x # xs) acc =
     (case f acc x of Inl e \<Rightarrow> Inl e | Inr acc' \<Rightarrow> Array_reduce f xs acc')"

subsection \<open>Objects keyed by numbers\<close>

text \<open>
  An object of type \<open>Record<number, V>\<close> is the list of its properties in creation
  order. A property key is the decimal string of the number; the model keeps the number
  itself, which \<open>Number(key)\<close> gives back.
\<close>

type_synonym 'v Object = "(int \<times> 'v) list"

definition Object_get :: "'v Object \<Rightarrow> int \<Rightarrow> 'v option" where
  "Object_get obj k = map_of obj k"

fun Object_set :: "'v Object \<Rightarrow> int \<Rightarrow> 'v \<Rightarrow> 'v Object" where
  "Object_set [] k v = [(k, v)]"
| "Object_set ((k', v') # ps) k v =
     (if k' = k then (k, v) # ps else (k', v') # Object_set ps k v)"

text \<open>
  \<open>Object.entries\<close> lists the array-index keys (the integers from 0 to \<open>2^32 - 2\<close>) first,
  in increasing order, and then the other keys in creation order.
\<close>

definition is_array_index :: "int \<Rightarrow> bool" where
  "is_array_index k = (0 \<le> k \<and> k < 4294967295)"

definition Object_entries :: "'v Object \<Rightarrow> (int \<times> 'v) list" where
  "Object_entries obj =
     sort_key fst (filter (\<lambda>p. is_array_index (fst p)) obj)
       @ filter (\<lambda>p. \<not> is_array_index (fst p)) obj"

section \<open>The content collections\<close>

subsection \<open>Documents\<close>

text \<open>
  A document of a collection carries its source text and the \<open>_meta\<close> record of its
  file (the field is \<open>meta\<close> here); the schema of the collection adds the front matter.
\<close>

record Meta =
  filePath :: string
  fileName :: string
  directory :: string
  path :: string
  extension :: string

record Document =
  meta :: Meta
  content :: string

text \<open>The schema of both collections: \<open>title\<close> and \<open>description\<close>.\<close>

record page_document = Document +
  title :: string
  description :: string

text \<open>
  The posts schema adds \<open>date\<close> and the optional \<open>image\<close> (the field \<open>post_image\<close>
  here).
\<close>

record post_document = page_document +
  date :: Date
  post_image :: "string option"

text \<open>What the pages transform returns.\<close>

record page = page_document +
  body :: string

text \<open>What the posts transform returns; the elements of \<open>allArticles\<close>.\<close>

record article = post_document +
  body :: string
  slug :: string
  readingTime :: string

subsection \<open>The MDX compiler and the reading-time estimate\<close>

text \<open>
  The options of \<open>compileMDX\<close>: two lists of plugins, a plugin standing alone or paired
  with its options.
\<close>

record Themes =
  light :: string
  dark :: string

record RehypeCodeOptions =
  themes :: Themes

datatype mdx_plugin = remarkGfm | rehypeCode | remarkHeading

datatype plugin_entry = Plugin mdx_plugin | PluginWith mdx_plugin RehypeCodeOptions

record Options =
  remarkPlugins :: "plugin_entry list"
  rehypePlugins :: "plugin_entry list"

definition rehypeCodeOptions :: RehypeCodeOptions where
  "rehypeCodeOptions = \<lparr>themes = \<lparr>light = ''github-light'', dark = ''github-dark-default''\<rparr>\<rparr>"

text \<open>
  The result of the reading-time estimate; the transform reads its \<open>text\<close> (the field
  \<open>rt_text\<close> here).
\<close>

record ReadTimeResults =
  rt_text :: string

text \<open>
  \<open>String.prototype.replace\<close> with a global pattern of one character and a replacement
  string without \<open>$\<close>: every occurrence of the character is replaced.
\<close>

definition replace_all_char :: "char \<Rightarrow> string \<Rightarrow> string \<Rightarrow> string" where
  "replace_all_char c r s = concat (map (\<lambda>x. if x = c then r else [x]) s)"

subsection \<open>The transforms\<close>

text \<open>
  \<open>compileMDX\<close> and \<open>readingTime\<close> come from libraries and are parameters. \<open>compileMDX\<close>
  is awaited: its promise is fulfilled with the compiled body (\<open>Inr\<close>) or rejected
  (\<open>Inl\<close>), and a rejection ends the transform, which has no handler. The document
  parameter of the compiler has the type \<open>Document\<close>: a page or post is passed as the
  \<open>Document\<close> it extends (\<open>Document.truncate\<close>).
\<close>

definition pages_transform ::
  "('ctx \<Rightarrow> Document \<Rightarrow> Options \<Rightarrow> 'e + string) \<Rightarrow> page_document \<Rightarrow> 'ctx \<Rightarrow> 'e + page" where
  "pages_transform compileMDX page context =
     (case compileMDX context (Document.truncate page)
             \<lparr>remarkPlugins = [Plugin remarkGfm],
              rehypePlugins = [PluginWith rehypeCode rehypeCodeOptions, Plugin remarkHeading]\<rparr> of
        Inl e \<Rightarrow> Inl e
      | Inr body' \<Rightarrow>
          Inr \<lparr>meta = (meta page)\<lparr>path := replace_all_char (CHR 0x5C) ''/'' (path (meta page))\<rparr>,
               content = content page,
               title = title page,
               description = description page,
               page.body = body'\<rparr>)"

definition posts_transform ::
  "('ctx \<Rightarrow> Document \<Rightarrow> Options \<Rightarrow> 'e + string) \<Rightarrow> (string \<Rightarrow> 'r ReadTimeResults_scheme)
     \<Rightarrow> post_document \<Rightarrow> 'ctx \<Rightarrow> 'e + article" where
  "posts_transform compileMDX readingTime_of page context =
     (case compileMDX context (Document.truncate page)
             \<lparr>remarkPlugins = [Plugin remarkGfm],
              rehypePlugins = [PluginWith rehypeCode rehypeCodeOptions, Plugin remarkHeading]\<rparr> of
        Inl e \<Rightarrow> Inl e
      | Inr body' \<Rightarrow>
          (let normalizedPath = replace_all_char (CHR 0x5C) ''/'' (path (meta page))
           in Inr \<lparr>meta = (meta page)\<lparr>path := normalizedPath\<rparr>,
                    content = content page,
                    title = title page,
                    description = description page,
                    date = Date (getTime (date page)),
                    post_image = post_image page,
                    body = body',
                    slug = normalizedPath,
                    readingTime = rt_text (readingTime_of (content page))\<rparr>))"

section \<open>The article page\<close>

text \<open>
  The comparator of the sort. The difference of two time values is computed in floating
  point, which may round it but keeps its sign, and the sort reads the sign only; the
  model takes the exact difference.
\<close>

definition by_date_desc :: "article \<Rightarrow> article \<Rightarrow> int" where
  "by_date_desc a b = getTime (date b) - getTime (date a)"

text \<open>
  The callback of the reduce. \<open>acc[year].push(post)\<close> throws a \<open>TypeError\<close> when
  \<open>acc[year]\<close> is undefined.
\<close>

definition group_post :: "(int \<Rightarrow> int) \<Rightarrow> article list Object \<Rightarrow> article \<Rightarrow> js_error + article list Object" where
  "group_post tza acc post =
     (let year = getFullYear tza (date post);
          acc1 = (if Object_get acc year = None then Object_set acc year [] else acc)
      in case Object_get acc1 year of
           None \<Rightarrow> Inl TypeError
         | Some bucket \<Rightarrow> Inr (Object_set acc1 year (bucket @ [post])))"

definition postsByYear :: "(int \<Rightarrow> int) \<Rightarrow> article list \<Rightarrow> js_error + article list Object" where
  "postsByYear tza allArticles =
     Array_reduce (group_post tza) (Array_sort by_date_desc allArticles) []"

text \<open>
  What the reduction computes, written without the error branch: \<open>add_to_bucket\<close> appends
  one element to the bucket of its key, creating the bucket when the key is new, and
  \<open>group_by_key\<close> does so for every element of a list, from left to right.
\<close>

definition add_to_bucket :: "int \<Rightarrow> 'a \<Rightarrow> 'a list Object \<Rightarrow> 'a list Object" where
  "add_to_bucket k x obj =
     Object_set obj k ((case map_of obj k of None \<Rightarrow> [] | Some b \<Rightarrow> b) @ [x])"

definition group_by_key :: "('a \<Rightarrow> int) \<Rightarrow> 'a list \<Rightarrow> 'a list Object \<Rightarrow> 'a list Object" where
  "group_by_key kf xs acc = foldl (\<lambda>acc x. add_to_bucket (kf x) x acc) acc xs"

subsection \<open>The rendered page\<close>

text \<open>
  One \<open>Section\<close> per year: its key and heading are the year, its delay is
  \<open>(index + 1) * 0.2\<close> seconds, kept here as the number of fifths of a second, and its
  list holds one item per post of the bucket.
\<close>

record Section =
  year :: int
  delay_fifths :: nat
  posts :: "article list"

record Posts_page =
  heading :: string
  lead :: string
  sections :: "Section list"

text \<open>The comparator of the entries: \<open>Number(b) - Number(a)\<close> on the keys.\<close>

definition by_year_desc :: "int \<times> 'v \<Rightarrow> int \<times> 'v \<Rightarrow> int" where
  "by_year_desc a b = fst b - fst a"

definition year_sections :: "article list Object \<Rightarrow> Section list" where
  "year_sections obj =
     map (\<lambda>(index, (y, ps)). \<lparr>year = y, delay_fifths = index + 1, posts = ps\<rparr>)
       (enumerate 0 (Array_sort by_year_desc (Object_entries obj)))"

definition Posts :: "(int \<Rightarrow> int) \<Rightarrow> article list \<Rightarrow> js_error + Posts_page" where
  "Posts tza allArticles =
     (case postsByYear tza allArticles of
        Inl e \<Rightarrow> Inl e
      | Inr obj \<Rightarrow>
          Inr \<lparr>heading = ''Article'', lead = ''Deep and technical writings.'',
               sections = year_sections obj\<rparr>)"

section \<open>Components\<close>

subsection \<open>Rendered elements\<close>

record Element =
  tag :: string
  attributes :: "(string \<times> string) list"
  children :: string

subsection \<open>JSON.stringify\<close>

text \<open>
  The values that the serializer meets here: strings, arrays, and objects as the list of
  their properties in creation order. A string is quoted, with the two-character escapes,
  a \<open>u\<close> escape of four hexadecimal digits for the other control characters, and every
  other character as it is.
\<close>

datatype json = JString string | JArray "json list" | JObject "(string \<times> json) list"

definition hex_digit :: "nat \<Rightarrow> char" where
  "hex_digit n = ''0123456789abcdef'' ! (n mod 16)"

definition quote_char :: "char \<Rightarrow> string" where
  "quote_char c =
     (if c = CHR 0x08 then [CHR 0x5C, CHR ''b'']
      else if c = CHR 0x09 then [CHR 0x5C, CHR ''t'']
      else if c = CHR 0x0A then [CHR 0x5C, CHR ''n'']
      else if c = CHR 0x0C then [CHR 0x5C, CHR ''f'']
      else if c = CHR 0x0D then [CHR 0x5C, CHR ''r'']
      else if c = CHR 0x22 then [CHR 0x5C, CHR 0x22]
      else if c = CHR 0x5C then [CHR 0x5C, CHR 0x5C]
      else if of_char c < (32::nat) then
        [CHR 0x5C, CHR ''u'', CHR ''0'', CHR ''0'',
         hex_digit (of_char c div 16), hex_digit (of_char c mod 16)]
      else [c])"

definition QuoteJSONString :: "string \<Rightarrow> string" where
  "QuoteJSONString s = CHR 0x22 # concat (map quote_char s) @ [CHR 0x22]"

fun join :: "string \<Rightarrow> string list \<Rightarrow> string" where
  "join sep [] = []"
| "join sep [x] = x"
| "join sep (x # y # ys) = x @ sep @ join sep (y # ys)"

fun JSON_stringify :: "json \<Rightarrow> string" where
  "JSON_stringify (JString s) = QuoteJSONString s"
| "JSON_stringify (JArray xs) = ''['' @ join '','' (map JSON_stringify xs) @ '']''"
| "JSON_stringify (JObject ps) =
     ''{'' @ join '','' (map (\<lambda>p. QuoteJSONString (fst p) @ '':'' @ JSON_stringify (snd p)) ps) @ ''}''"

subsection \<open>The JSON-LD injector\<close>

text \<open>
  The environment of the module: \<open>process.env.NODE_ENV\<close>, the host name
  \<open>env.VERCEL_PROJECT_PRODUCTION_URL\<close>, the \<open>social\<close> object (its properties in
  enumeration order) and the platform's \<open>URL\<close>: \<open>URL_href path base\<close> stands for
  \<open>new URL(path, base).toString()\<close>, whose constructor throws a \<open>TypeError\<close> on an
  invalid base.
\<close>

record Social =
  href :: string

definition Object_values :: "('k \<times> 'v) list \<Rightarrow> 'v list" where
  "Object_values obj = map snd obj"

definition protocol :: "string option \<Rightarrow> string" where
  "protocol NODE_ENV = (if NODE_ENV = Some ''production'' then ''https'' else ''http'')"

definition baseUrl :: "string option \<Rightarrow> string \<Rightarrow> string" where
  "baseUrl NODE_ENV VERCEL_PROJECT_PRODUCTION_URL =
     protocol NODE_ENV @ ''://'' @ VERCEL_PROJECT_PRODUCTION_URL"

definition person ::
  "(string \<Rightarrow> string \<Rightarrow> js_error + string) \<Rightarrow> string option \<Rightarrow> string
     \<Rightarrow> (string \<times> 'a Social_scheme) list \<Rightarrow> js_error + json" where
  "person URL_href NODE_ENV VERCEL_PROJECT_PRODUCTION_URL social =
     (case URL_href ''/profile.png'' (baseUrl NODE_ENV VERCEL_PROJECT_PRODUCTION_URL) of
        Inl e \<Rightarrow> Inl e
      | Inr image_href \<Rightarrow>
          Inr (JObject
            [(''@context'', JString ''https://schema.org''),
             (''@type'', JString ''Person''),
             (''name'', JString ''Felix Arjuna''),
             (''description'', JString ''Cloud DevOps Engineer''),
             (''gender'', JString ''male''),
             (''nationality'', JString ''Indonesian''),
             (''url'', JString (baseUrl NODE_ENV VERCEL_PROJECT_PRODUCTION_URL)),
             (''image'', JString image_href),
             (''sameAs'', JArray (map (\<lambda>s. JString (href s)) (Object_values social))),
             (''alumniOf'', JString ''Aachen University of Applied Sciences'')]))"

definition JsonLd ::
  "(string \<Rightarrow> string \<Rightarrow> js_error + string) \<Rightarrow> string option \<Rightarrow> string
     \<Rightarrow> (string \<times> 'a Social_scheme) list \<Rightarrow> js_error + Element" where
  "JsonLd URL_href NODE_ENV VERCEL_PROJECT_PRODUCTION_URL social =
     (case person URL_href NODE_ENV VERCEL_PROJECT_PRODUCTION_URL social of
        Inl e \<Rightarrow> Inl e
      | Inr p \<Rightarrow>
          Inr \<lparr>tag = ''script'', attributes = [(''type'', ''application/ld+json'')],
               children = JSON_stringify p\<rparr>)"

subsection \<open>The clock\<close>

text \<open>
  The timers of the platform: \<open>setInterval\<close> registers a callback with its delay in
  milliseconds and returns a fresh handle, \<open>clearInterval\<close> removes the registration, and
  the platform runs the callback of a registered interval each time its delay has
  elapsed. A callback is a function of the clock reading at that moment (what
  \<open>new Date()\<close> gives) and of the state of the component that registered it.
\<close>

record 's Interval =
  handle :: nat
  delay :: nat
  callback :: "Date \<Rightarrow> 's \<Rightarrow> 's"

record 's Timers =
  intervals :: "'s Interval list"
  next_handle :: nat

definition setInterval :: "(Date \<Rightarrow> 's \<Rightarrow> 's) \<Rightarrow> nat \<Rightarrow> 's Timers \<Rightarrow> nat \<times> 's Timers" where
  "setInterval cb ms ts =
     (next_handle ts,
      ts\<lparr>intervals := intervals ts @ [\<lparr>handle = next_handle ts, delay = ms, callback = cb\<rparr>],
         next_handle := Suc (next_handle ts)\<rparr>)"

definition clearInterval :: "nat \<Rightarrow> 's Timers \<Rightarrow> 's Timers" where
  "clearInterval h ts = ts\<lparr>intervals := filter (\<lambda>i. handle i \<noteq> h) (intervals ts)\<rparr>"

definition run_interval :: "nat \<Rightarrow> Date \<Rightarrow> 's \<times> 's Timers \<Rightarrow> 's \<times> 's Timers" where
  "run_interval h now st =
     (case find (\<lambda>i. handle i = h) (intervals (snd st)) of
        None \<Rightarrow> st
      | Some i \<Rightarrow> (callback i now (fst st), snd st))"

text \<open>
  The state of a mounted \<open>LocalTime\<close>: the \<open>time\<close> of \<open>useState\<close> and the handle that the
  cleanup of the effect holds.
\<close>

record LocalTime_state =
  time :: Date
  interval :: nat

record DateTimeFormatOptions =
  hour :: string
  minute :: string
  second :: string
  timeZone :: string

text \<open>
  Mounting: the first render initialises \<open>time\<close> with the clock reading, and the effect,
  which runs once, registers the interval.
\<close>

definition LocalTime_mount :: "Date \<Rightarrow> LocalTime_state Timers \<Rightarrow> LocalTime_state \<times> LocalTime_state Timers" where
  "LocalTime_mount now ts =
     (let (h, ts') = setInterval (\<lambda>now s. s\<lparr>time := now\<rparr>) 1000 ts
      in (\<lparr>time = now, interval = h\<rparr>, ts'))"

definition LocalTime_unmount :: "LocalTime_state \<Rightarrow> LocalTime_state Timers \<Rightarrow> LocalTime_state Timers" where
  "LocalTime_unmount s ts = clearInterval (interval s) ts"

text \<open>
  Rendering; \<open>format locale options d\<close> stands for
  \<open>new Intl.DateTimeFormat(locale, options).format(d)\<close>.
\<close>

definition LocalTime_render ::
  "(string \<Rightarrow> DateTimeFormatOptions \<Rightarrow> Date \<Rightarrow> string) \<Rightarrow> LocalTime_state \<Rightarrow> Element" where
  "LocalTime_render format s =
     \<lparr>tag = ''p'',
      attributes = [(''className'', ''hidden text-foreground-lighter tabular-nums sm:block'')],
      children = format ''de-DE''
        \<lparr>hour = ''2-digit'', minute = ''2-digit'', second = ''2-digit'',
         timeZone = ''Europe/Berlin''\<rparr> (time s)\<rparr>"

text \<open>The timers are well formed when every registered handle is below the next one.\<close>

definition timers_ok :: "'s Timers \<Rightarrow> bool" where
  "timers_ok ts = list_all (\<lambda>i. handle i < next_handle ts) (intervals ts)"

section \<open>Example inputs\<close>

definition example_article :: "string \<Rightarrow> int \<Rightarrow> article" where
  "example_article p t =
     \<lparr>meta = \<lparr>filePath = p, fileName = p, directory = [], path = p, extension = ''mdx''\<rparr>,
      content = [], title = p, description = [], date = Date t, post_image = None,
      body = [], slug = p, readingTime = []\<rparr>"

definition utc :: "int \<Rightarrow> int" where
  "utc t = 0"

definition cet :: "int \<Rightarrow> int" where
  "cet t = 3600000"

text \<open>
  A compiler that rejects a document with an unclosed tag at its end, and a reading-time
  estimate of 200 characters a minute.
\<close>

definition example_compileMDX :: "unit \<Rightarrow> Document \<Rightarrow> Options \<Rightarrow> string + string" where
  "example_compileMDX context doc options =
     (if content doc \<noteq> [] \<and> last (content doc) = CHR ''<''
      then Inl ''Unexpected end of file''
      else Inr (''<article>'' @ content doc @ ''</article>''))"

definition example_readingTime :: "string \<Rightarrow> ReadTimeResults" where
  "example_readingTime s =
     \<lparr>rt_text = (if length s \<le> 200 then ''1 min read'' else ''2 min read'')\<rparr>"

definition example_page :: "string \<Rightarrow> page_document" where
  "example_page c =
     \<lparr>meta = \<lparr>filePath = ''pages'' @ [CHR 0x5C] @ ''about.mdx'', fileName = ''about.mdx'',
              directory = ''pages'', path = ''pages'' @ [CHR 0x5C] @ ''about'',
              extension = ''mdx''\<rparr>,
      content = c, title = ''About'', description = ''About me''\<rparr>"

definition example_post :: "string \<Rightarrow> post_document" where
  "example_post c =
     \<lparr>meta = \<lparr>filePath = ''blog'' @ [CHR 0x5C] @ ''2025'' @ [CHR 0x5C] @ ''hello.mdx'',
              fileName = ''hello.mdx'', directory = ''blog'',
              path = ''blog'' @ [CHR 0x5C] @ ''2025'' @ [CHR 0x5C] @ ''hello'',
              extension = ''mdx''\<rparr>,
      content = c, title = ''Hello'', description = ''A post'',
      date = Date 1751846400000, post_image = None\<rparr>"

definition example_URL_href :: "string \<Rightarrow> string \<Rightarrow> js_error + string" where
  "example_URL_href p base = (if base = ''https://'' \<or> base = ''http://'' then Inl TypeError else Inr (base @ p))"

definition example_social :: "(string \<times> Social) list" where
  "example_social =
     [(''github'', \<lparr>href = ''https://github.com/felixarjuna''\<rparr>),
      (''linkedin'', \<lparr>href = ''https://www.linkedin.com/in/felixarjuna''\<rparr>)]"

text \<open>
  A formatter for a host on which \<open>Europe/Berlin\<close> is one hour ahead of UTC at the time it
  formats (winter time): hours, minutes and seconds of the day, two digits each.
\<close>

definition two_digits :: "int \<Rightarrow> string" where
  "two_digits n = [''0123456789'' ! nat (n div 10 mod 10), ''0123456789'' ! nat (n mod 10)]"

definition example_format :: "string \<Rightarrow> DateTimeFormatOptions \<Rightarrow> Date \<Rightarrow> string" where
  "example_format locale options d =
     (if locale = ''de-DE'' \<and> timeZone options = ''Europe/Berlin'' \<and> hour options = ''2-digit''
         \<and> minute options = ''2-digit'' \<and> second options = ''2-digit''
      then (let s = (getTime d + 3600000) div 1000 mod 86400
            in two_digits (s div 3600) @ '':'' @ two_digits (s div 60 mod 60) @ '':''
                 @ two_digits (s mod 60))
      else [])"

section \<open>The year of a time value\<close>

text \<open>
  \<open>YearFromTime\<close> computes what its specification asks for: the time value lies in the
  year it returns, and no later year has begun.
\<close>

lemma DayFromYear_period: "DayFromYear (400 * n + k) = DayFromYear k + 146097 * n"
proof -
  have "(400 * n + k - 1969) div 4 = 100 * n + (k - 1969) div 4"
    using div_mult_self2 [of 4 "k - 1969" "100 * n"] by (simp add: algebra_simps)
  moreover have "(400 * n + k - 1901) div 100 = 4 * n + (k - 1901) div 100"
    using div_mult_self2 [of 100 "k - 1901" "4 * n"] by (simp add: algebra_simps)
  moreover have "(400 * n + k - 1601) div 400 = n + (k - 1601) div 400"
    using div_mult_self2 [of 400 "k - 1601" n] by (simp add: algebra_simps)
  ultimately show ?thesis
    by (simp add: DayFromYear_def)
qed

text \<open>The year \<open>100 * a + 4 * b + c\<close> of an era and its two neighbours.\<close>

lemma DayFromYear_in_era:
  fixes a b c :: int
  assumes a: "0 \<le> a" "a \<le> 3" and b: "0 \<le> b" "b \<le> 24" and c: "0 \<le> c" "c \<le> 3"
  defines "k \<equiv> 100 * a + 4 * b + c"
  defines "g \<equiv> 36524 * a + 1461 * b + 365 * c"
  shows "DayFromYear k \<le> g - 719526"
    and "DayFromYear (k + 1) = g - 719162"
    and "g - 718798 \<le> DayFromYear (k + 2)"
proof -
  define p4 p100 p400 where "p4 = (k - 1969) div 4" and "p100 = (k - 1901) div 100"
    and "p400 = (k - 1601) div 400"
  define q4 q100 q400 where "q4 = (k - 1968) div 4" and "q100 = (k - 1900) div 100"
    and "q400 = (k - 1600) div 400"
  define s4 s100 s400 where "s4 = (k - 1967) div 4" and "s100 = (k - 1899) div 100"
    and "s400 = (k - 1599) div 400"
  have q4: "q4 = 25 * a + b - 492"
    unfolding q4_def by (rule int_div_pos_eq [where r = c]) (use c in \<open>simp_all add: k_def\<close>)
  have q100: "q100 = a - 19"
    unfolding q100_def
    by (rule int_div_pos_eq [where r = "4 * b + c"]) (use b c in \<open>simp_all add: k_def\<close>)
  have q400: "q400 = - 4"
    unfolding q400_def
    by (rule int_div_pos_eq [where r = "100 * a + 4 * b + c"])
      (use a b c in \<open>simp_all add: k_def\<close>)
  have "(k - 2000) div 100 = a - 20"
    by (rule int_div_pos_eq [where r = "4 * b + c"]) (use b c in \<open>simp_all add: k_def\<close>)
  moreover have "(k - 2000) div 100 \<le> (k - 1901) div 100"
    by (rule zdiv_mono1) simp_all
  ultimately have p100: "a - 20 \<le> p100"
    by (simp add: p100_def)
  have "(k - 1800) div 100 = a - 18"
    by (rule int_div_pos_eq [where r = "4 * b + c"]) (use b c in \<open>simp_all add: k_def\<close>)
  moreover have "(k - 1899) div 100 \<le> (k - 1800) div 100"
    by (rule zdiv_mono1) simp_all
  ultimately have s100: "s100 \<le> a - 18"
    by (simp add: s100_def)
  have p4: "p4 \<le> q4"
    unfolding p4_def q4_def by (rule zdiv_mono1) simp_all
  have p400: "p400 \<le> q400"
    unfolding p400_def q400_def by (rule zdiv_mono1) simp_all
  have s4: "q4 \<le> s4"
    unfolding s4_def q4_def by (rule zdiv_mono1) simp_all
  have s400: "q400 \<le> s400"
    unfolding s400_def q400_def by (rule zdiv_mono1) simp_all
  have e0: "DayFromYear k = 365 * (k - 1970) + p4 - p100 + p400"
    by (simp add: DayFromYear_def p4_def p100_def p400_def)
  have e1: "DayFromYear (k + 1) = 365 * (k - 1969) + q4 - q100 + q400"
    by (simp add: DayFromYear_def q4_def q100_def q400_def)
  have e2: "DayFromYear (k + 2) = 365 * (k - 1968) + s4 - s100 + s400"
    by (simp add: DayFromYear_def s4_def s100_def s400_def)
  have kg: "365 * k + 24 * a + b = g"
    by (simp add: k_def g_def)
  show "DayFromYear k \<le> g - 719526"
    using p4 p100 p400 q4 q400 kg unfolding e0 by simp
  show "DayFromYear (k + 1) = g - 719162"
    using q4 q100 q400 kg unfolding e1 by simp
  show "g - 718798 \<le> DayFromYear (k + 2)"
    using s4 s100 s400 q4 q400 kg unfolding e2 by simp
qed


lemma div_bounds:
  fixes x c :: int
  assumes "0 < c"
  shows "c * (x div c) \<le> x" and "x < c * (x div c) + c"
proof -
  have "c * (x div c) + x mod c = x"
    by (rule mult_div_mod_eq)
  moreover have "0 \<le> x mod c" and "x mod c < c"
    using assms by simp_all
  ultimately show "c * (x div c) \<le> x" and "x < c * (x div c) + c"
    by linarith+
qed

lemma YearFromTime_days:
  "DayFromYear (YearFromTime t) \<le> Day t \<and> Day t < DayFromYear (YearFromTime t + 1)"
proof -
  define z where "z = Day t + 719468"
  define n400 where "n400 = z div 146097"
  define r where "r = z mod 146097"
  define q100 where "q100 = r div 36524"
  define n100 where "n100 = min 3 q100"
  define r1 where "r1 = r - 36524 * n100"
  define n4 where "n4 = r1 div 1461"
  define r2 where "r2 = r1 mod 1461"
  define q1 where "q1 = r2 div 365"
  define n1 where "n1 = min 3 q1"
  define doy where "doy = r2 - 365 * n1"
  define k where "k = 100 * n100 + 4 * n4 + n1"
  define g where "g = 36524 * n100 + 1461 * n4 + 365 * n1"
  have "YearFromTime t =
      400 * n400 + 100 * n100 + 4 * n4 + n1 + (if doy < 306 then 0 else 1)"
    unfolding YearFromTime_def Let_def doy_def n1_def q1_def r2_def n4_def r1_def
      n100_def q100_def r_def n400_def z_def by (rule refl)
  then have year: "YearFromTime t = 400 * n400 + k + (if doy < 306 then 0 else 1)"
    by (simp add: k_def)
  have z: "z = 146097 * n400 + r"
    by (simp add: n400_def r_def)
  have r: "0 \<le> r" "r < 146097"
    by (simp_all add: r_def)
  have q100: "36524 * q100 \<le> r" "r < 36524 * q100 + 36524"
    unfolding q100_def by (rule div_bounds, simp)+
  from q100 r have q100_range: "0 \<le> q100" "q100 \<le> 4"
    by linarith+
  then have n100: "0 \<le> n100" "n100 \<le> 3" "n100 \<le> q100"
    by (simp_all add: n100_def)
  have r1_lo: "0 \<le> r1"
    using n100(3) q100(1) unfolding r1_def by linarith
  have r1_hi: "r1 \<le> 36524"
  proof (cases "q100 \<le> 3")
    case True
    then have "n100 = q100" by (simp add: n100_def)
    with q100(2) show ?thesis unfolding r1_def by linarith
  next
    case False
    then have "n100 = 3" by (simp add: n100_def)
    with r(2) show ?thesis unfolding r1_def by linarith
  qed
  note r1 = r1_lo r1_hi
  have n4: "1461 * n4 \<le> r1" "r1 < 1461 * n4 + 1461"
    unfolding n4_def by (rule div_bounds, simp)+
  from n4 r1 have n4_range: "0 \<le> n4" "n4 \<le> 24"
    by linarith+
  have r1_split: "r1 = 1461 * n4 + r2"
    by (simp add: n4_def r2_def)
  have r2: "0 \<le> r2" "r2 < 1461"
    by (simp_all add: r2_def)
  have q1: "365 * q1 \<le> r2" "r2 < 365 * q1 + 365"
    unfolding q1_def by (rule div_bounds, simp)+
  from q1 r2 have q1_range: "0 \<le> q1" "q1 \<le> 4"
    by linarith+
  then have n1: "0 \<le> n1" "n1 \<le> 3" "n1 \<le> q1"
    by (simp_all add: n1_def)
  have doy_lo: "0 \<le> doy"
    using n1(3) q1(1) unfolding doy_def by linarith
  have doy_hi: "doy \<le> 365"
  proof (cases "q1 \<le> 3")
    case True
    then have "n1 = q1" by (simp add: n1_def)
    with q1(2) show ?thesis unfolding doy_def by linarith
  next
    case False
    then have "n1 = 3" by (simp add: n1_def)
    with r2(2) show ?thesis unfolding doy_def by linarith
  qed
  note doy = doy_lo doy_hi
  have day: "Day t = 146097 * n400 + g + doy - 719468"
    using z r1_split by (simp add: z_def r1_def doy_def g_def)
  note era = DayFromYear_in_era [OF n100(1,2) n4_range n1(1,2), folded k_def g_def]
  have at: "DayFromYear (400 * n400 + j) = DayFromYear j + 146097 * n400" for j
    by (rule DayFromYear_period)
  show ?thesis
  proof (cases "doy < 306")
    case True
    then have y: "YearFromTime t = 400 * n400 + k"
      and y1: "YearFromTime t + 1 = 400 * n400 + (k + 1)"
      by (simp_all add: year)
    show ?thesis
      unfolding y1 unfolding y at day using era(1,2) doy True by simp
  next
    case False
    then have y: "YearFromTime t = 400 * n400 + (k + 1)"
      and y1: "YearFromTime t + 1 = 400 * n400 + (k + 2)"
      by (simp_all add: year)
    show ?thesis
      unfolding y1 unfolding y at day using era(2,3) doy False by simp
  qed
qed


lemma YearFromTime_time:
  "TimeFromYear (YearFromTime t) \<le> t \<and> t < TimeFromYear (YearFromTime t + 1)"
proof -
  from YearFromTime_days [of t]
  have lo: "DayFromYear (YearFromTime t) \<le> Day t"
    and hi: "Day t + 1 \<le> DayFromYear (YearFromTime t + 1)"
    by simp_all
  have day: "msPerDay * Day t \<le> t" "t < msPerDay * Day t + msPerDay"
    unfolding Day_def by (rule div_bounds, simp add: msPerDay_def)+
  have "msPerDay * DayFromYear (YearFromTime t) \<le> msPerDay * Day t"
    using lo by (rule mult_left_mono) (simp add: msPerDay_def)
  with day(1) have below: "TimeFromYear (YearFromTime t) \<le> t"
    unfolding TimeFromYear_def by linarith
  have "msPerDay * (Day t + 1) \<le> msPerDay * DayFromYear (YearFromTime t + 1)"
    using hi by (rule mult_left_mono) (simp add: msPerDay_def)
  then have "msPerDay * Day t + msPerDay \<le> TimeFromYear (YearFromTime t + 1)"
    by (simp add: TimeFromYear_def algebra_simps)
  with day(2) have "t < TimeFromYear (YearFromTime t + 1)"
    by linarith
  with below show ?thesis ..
qed


lemma DayFromYear_less_next: "DayFromYear y < DayFromYear (y + 1)"
proof -
  define p4 p100 p400 where "p4 = (y - 1969) div 4" and "p100 = (y - 1901) div 100"
    and "p400 = (y - 1601) div 400"
  define q4 q100 q400 where "q4 = (y - 1968) div 4" and "q100 = (y - 1900) div 100"
    and "q400 = (y - 1600) div 400"
  have p4: "p4 \<le> q4"
    unfolding p4_def q4_def by (rule zdiv_mono1) simp_all
  have p400: "p400 \<le> q400"
    unfolding p400_def q400_def by (rule zdiv_mono1) simp_all
  have "(y - 1900) div 100 \<le> (y - 1901 + 100) div 100"
    by (rule zdiv_mono1) simp_all
  also have "\<dots> = (y - 1901) div 100 + 1"
    by (rule div_add_self2) simp
  finally have q100: "q100 \<le> p100 + 1"
    by (simp only: p100_def q100_def)
  have e0: "DayFromYear y = 365 * (y - 1970) + p4 - p100 + p400"
    by (simp add: DayFromYear_def p4_def p100_def p400_def)
  have e1: "DayFromYear (y + 1) = 365 * (y - 1969) + q4 - q100 + q400"
    by (simp add: DayFromYear_def q4_def q100_def q400_def)
  show ?thesis
    using p4 p400 q100 unfolding e0 e1 by simp
qed

lemma DayFromYear_mono: "y \<le> y' \<Longrightarrow> DayFromYear y \<le> DayFromYear y'"
proof (induction y' rule: int_ge_induct)
  case base
  show ?case by simp
next
  case (step i)
  from DayFromYear_less_next [of i] step.IH show ?case by linarith
qed

lemma YearFromTime_largest:
  assumes "TimeFromYear y \<le> t"
  shows "y \<le> YearFromTime t"
proof (rule ccontr)
  assume "\<not> y \<le> YearFromTime t"
  then have "YearFromTime t + 1 \<le> y"
    by simp
  then have "DayFromYear (YearFromTime t + 1) \<le> DayFromYear y"
    by (rule DayFromYear_mono)
  then have "msPerDay * DayFromYear (YearFromTime t + 1) \<le> msPerDay * DayFromYear y"
    by (rule mult_left_mono) (simp add: msPerDay_def)
  then have "TimeFromYear (YearFromTime t + 1) \<le> TimeFromYear y"
    by (simp only: TimeFromYear_def)
  with assms YearFromTime_time [of t] show False
    by linarith
qed

lemma YearFromTime_examples:
  "map YearFromTime
     [0, - 1, 946684799999, 946684800000, 951782400000, 1735689599999, 1735689600000,
      1751846400000, 4102444800000, - 2208988800001, - 62167219200000, - 62167219200001,
      8640000000000000, - 8640000000000000]
   = [1970, 1969, 1999, 2000, 2000, 2024, 2025, 2025, 2100, 1899, 0, - 1, 275760, - 271821]"
  by code_simp

section \<open>Properties of the article page\<close>

subsection \<open>Sorting, objects and grouping\<close>

lemma insert_cmp_insort:
  assumes "\<And>a b. (cmp a b \<le> 0) = (f a \<le> f b)"
  shows "insert_cmp cmp x ys = insort_key f x ys"
  by (induction ys) (simp_all add: assms)

lemma Array_sort_sort_key:
  assumes "\<And>a b. (cmp a b \<le> 0) = (f a \<le> f b)"
  shows "Array_sort cmp xs = sort_key f xs"
proof -
  have "insert_cmp cmp = insort_key f"
    by (intro ext) (rule insert_cmp_insort [OF assms])
  then show ?thesis
    by (simp add: Array_sort_def sort_key_def)
qed

lemma sort_by_date_desc:
  "Array_sort by_date_desc xs = sort_key (\<lambda>a. - getTime (date a)) xs"
  by (rule Array_sort_sort_key) (simp add: by_date_desc_def)

lemma map_of_Object_set: "map_of (Object_set obj k v) = (map_of obj)(k \<mapsto> v)"
  by (induction obj) (auto simp: fun_eq_iff)

lemma keys_Object_set:
  "map fst (Object_set obj k v) =
     (if k \<in> fst ` set obj then map fst obj else map fst obj @ [k])"
  by (induction obj) (auto split: if_splits)

lemma distinct_Object_set:
  "distinct (map fst obj) \<Longrightarrow> distinct (map fst (Object_set obj k v))"
  by (simp add: keys_Object_set)

lemma Object_set_twice: "Object_set (Object_set obj k v) k w = Object_set obj k w"
  by (induction obj) auto

lemma buckets_Object_set_new:
  "map_of obj k = None \<Longrightarrow>
     concat (map snd (Object_set obj k v)) = concat (map snd obj) @ v"
  by (induction obj) (auto split: if_splits)

lemma buckets_Object_set_old:
  "map_of obj k = Some b \<Longrightarrow>
     mset (concat (map snd (Object_set obj k (b @ [x])))) =
       add_mset x (mset (concat (map snd obj)))"
  by (induction obj) (auto split: if_splits)

lemma group_post_add:
  "group_post tza acc post = Inr (add_to_bucket (getFullYear tza (date post)) post acc)"
  by (cases "map_of acc (getFullYear tza (date post))")
     (simp_all add: group_post_def add_to_bucket_def Object_get_def Let_def
        map_of_Object_set Object_set_twice)

lemma reduce_group_post:
  "Array_reduce (group_post tza) xs acc =
     Inr (group_by_key (\<lambda>p. getFullYear tza (date p)) xs acc)"
  by (induction xs arbitrary: acc) (simp_all add: group_by_key_def group_post_add)

lemma map_of_add_to_bucket:
  "map_of (add_to_bucket k x obj) =
     (map_of obj)(k \<mapsto> (case map_of obj k of None \<Rightarrow> [] | Some b \<Rightarrow> b) @ [x])"
  by (simp add: add_to_bucket_def map_of_Object_set)

lemma map_of_group_by_key:
  "map_of (group_by_key kf xs acc) k =
     (case map_of acc k of
        None \<Rightarrow> (if filter (\<lambda>x. kf x = k) xs = [] then None
                 else Some (filter (\<lambda>x. kf x = k) xs))
      | Some b \<Rightarrow> Some (b @ filter (\<lambda>x. kf x = k) xs))"
proof (induction xs arbitrary: acc)
  case Nil
  then show ?case by (simp add: group_by_key_def split: option.splits)
next
  case (Cons x xs)
  have "group_by_key kf (x # xs) acc = group_by_key kf xs (add_to_bucket (kf x) x acc)"
    by (simp add: group_by_key_def)
  then show ?case
    by (simp add: Cons.IH map_of_add_to_bucket split: option.splits)
qed

lemma distinct_group_by_key:
  "distinct (map fst acc) \<Longrightarrow> distinct (map fst (group_by_key kf xs acc))"
proof (induction xs arbitrary: acc)
  case Nil
  then show ?case by (simp add: group_by_key_def)
next
  case (Cons x xs)
  have "distinct (map fst (add_to_bucket (kf x) x acc))"
    unfolding add_to_bucket_def using Cons.prems by (rule distinct_Object_set)
  from Cons.IH [OF this] show ?case by (simp add: group_by_key_def)
qed

lemma buckets_add_to_bucket:
  "mset (concat (map snd (add_to_bucket k x obj))) = add_mset x (mset (concat (map snd obj)))"
  by (cases "map_of obj k")
     (simp_all add: add_to_bucket_def buckets_Object_set_new buckets_Object_set_old)

lemma buckets_group_by_key:
  "mset (concat (map snd (group_by_key kf xs acc))) = mset (concat (map snd acc)) + mset xs"
proof (induction xs arbitrary: acc)
  case Nil
  then show ?case by (simp add: group_by_key_def)
next
  case (Cons x xs)
  have "group_by_key kf (x # xs) acc = group_by_key kf xs (add_to_bucket (kf x) x acc)"
    by (simp add: group_by_key_def)
  then show ?case
    by (simp add: Cons.IH buckets_add_to_bucket)
qed

lemma postsByYear_group:
  "postsByYear tza xs =
     Inr (group_by_key (\<lambda>p. getFullYear tza (date p)) (Array_sort by_date_desc xs) [])"
  by (simp add: postsByYear_def reduce_group_post)

lemma group_by_key_bucket:
  assumes "(k, b) \<in> set (group_by_key kf xs [])"
  shows "b = filter (\<lambda>x. kf x = k) xs \<and> b \<noteq> []"
proof -
  have "distinct (map fst (group_by_key kf xs []))"
    by (rule distinct_group_by_key) simp
  with assms have "map_of (group_by_key kf xs []) k = Some b"
    by simp
  then show ?thesis
    by (simp add: map_of_group_by_key split: if_splits)
qed

lemma group_by_key_member:
  assumes "x \<in> set xs"
  shows "(kf x, filter (\<lambda>y. kf y = kf x) xs) \<in> set (group_by_key kf xs [])"
proof -
  from assms have "filter (\<lambda>y. kf y = kf x) xs \<noteq> []"
    by (auto simp: filter_empty_conv)
  then have "map_of (group_by_key kf xs []) (kf x) = Some (filter (\<lambda>y. kf y = kf x) xs)"
    by (simp add: map_of_group_by_key)
  then show ?thesis by (rule map_of_SomeD)
qed

subsection \<open>Grouping by year\<close>

text \<open>
  Claim C1. The article page groups posts by year. For every list of articles the
  computation of \<open>postsByYear\<close> returns an object whose keys are distinct and whose
  buckets together hold the articles of the list, each as often as the list does; every
  article is in the bucket keyed by the year of its date and in no bucket of another
  key; and the bucket keyed \<open>y\<close> is not empty and holds exactly the articles of the list
  whose date has the year \<open>y\<close>.
\<close>

theorem postsByYear_partition:
  "\<exists>obj. postsByYear tza allArticles = Inr obj
     \<and> distinct (map fst obj)
     \<and> mset (concat (map snd obj)) = mset allArticles
     \<and> (\<forall>p \<in> set allArticles. \<exists>bucket.
           (getFullYear tza (date p), bucket) \<in> set obj \<and> p \<in> set bucket)
     \<and> (\<forall>(y, bucket) \<in> set obj. \<forall>p \<in> set bucket. getFullYear tza (date p) = y)
     \<and> (\<forall>(y, bucket) \<in> set obj.
           bucket \<noteq> [] \<and>
           mset bucket = filter_mset (\<lambda>p. getFullYear tza (date p) = y) (mset allArticles))"
proof -
  define kf where "kf = (\<lambda>p::article. getFullYear tza (date p))"
  define sorted_articles where "sorted_articles = Array_sort by_date_desc allArticles"
  define obj where "obj = group_by_key kf sorted_articles []"
  have run: "postsByYear tza allArticles = Inr obj"
    by (simp add: postsByYear_group obj_def kf_def sorted_articles_def)
  have perm: "mset sorted_articles = mset allArticles"
    by (simp add: sorted_articles_def sort_by_date_desc)
  then have same_set: "set sorted_articles = set allArticles"
    by (rule mset_eq_setD)
  have keys: "distinct (map fst obj)"
    unfolding obj_def by (rule distinct_group_by_key) simp
  have all: "mset (concat (map snd obj)) = mset allArticles"
    by (simp add: obj_def buckets_group_by_key perm)
  have found: "\<exists>bucket. (kf p, bucket) \<in> set obj \<and> p \<in> set bucket"
    if "p \<in> set allArticles" for p
  proof -
    from that have "p \<in> set sorted_articles" by (simp add: same_set)
    then have "(kf p, filter (\<lambda>q. kf q = kf p) sorted_articles) \<in> set obj"
      unfolding obj_def by (rule group_by_key_member)
    moreover have "p \<in> set (filter (\<lambda>q. kf q = kf p) sorted_articles)"
      using \<open>p \<in> set sorted_articles\<close> by simp
    ultimately show ?thesis by blast
  qed
  have exact: "bucket \<noteq> [] \<and> mset bucket = filter_mset (\<lambda>p. kf p = y) (mset allArticles)"
    if "(y, bucket) \<in> set obj" for y bucket
  proof -
    from that have "bucket = filter (\<lambda>p. kf p = y) sorted_articles \<and> bucket \<noteq> []"
      unfolding obj_def by (rule group_by_key_bucket)
    then have eq: "bucket = filter (\<lambda>p. kf p = y) sorted_articles" and ne: "bucket \<noteq> []"
      by blast+
    from eq have "mset bucket = filter_mset (\<lambda>p. kf p = y) (mset sorted_articles)"
      by (simp only: mset_filter)
    with ne show ?thesis by (simp only: perm simp_thms)
  qed
  have own: "kf p = y" if "(y, bucket) \<in> set obj" and "p \<in> set bucket" for y bucket p
  proof -
    from that(1) have "bucket = filter (\<lambda>p. kf p = y) sorted_articles"
      unfolding obj_def by (rule group_by_key_bucket [THEN conjunct1])
    with that(2) show ?thesis by simp
  qed
  from run keys all found own exact show ?thesis
    unfolding kf_def by blast
qed

theorem postsByYear_partition_witness:
  "postsByYear utc
      [example_article ''a'' 1751500800000, example_article ''b'' 1735689599999,
       example_article ''c'' 1751846400000]
    = Inr [(2025, [example_article ''c'' 1751846400000, example_article ''a'' 1751500800000]),
           (2024, [example_article ''b'' 1735689599999])]
   \<and> (\<exists>obj. postsByYear utc
          [example_article ''a'' 1751500800000, example_article ''b'' 1735689599999,
           example_article ''c'' 1751846400000] = Inr obj
     \<and> distinct (map fst obj)
     \<and> mset (concat (map snd obj)) =
         mset [example_article ''a'' 1751500800000, example_article ''b'' 1735689599999,
               example_article ''c'' 1751846400000]
     \<and> (\<forall>p \<in> set [example_article ''a'' 1751500800000, example_article ''b'' 1735689599999,
                    example_article ''c'' 1751846400000]. \<exists>bucket.
           (getFullYear utc (date p), bucket) \<in> set obj \<and> p \<in> set bucket)
     \<and> (\<forall>(y, bucket) \<in> set obj. \<forall>p \<in> set bucket. getFullYear utc (date p) = y)
     \<and> (\<forall>(y, bucket) \<in> set obj.
           bucket \<noteq> [] \<and>
           mset bucket = filter_mset (\<lambda>p. getFullYear utc (date p) = y)
             (mset [example_article ''a'' 1751500800000, example_article ''b'' 1735689599999,
                    example_article ''c'' 1751846400000])))"
proof -
  have "postsByYear utc
      [example_article ''a'' 1751500800000, example_article ''b'' 1735689599999,
       example_article ''c'' 1751846400000]
    = Inr [(2025, [example_article ''c'' 1751846400000, example_article ''a'' 1751500800000]),
           (2024, [example_article ''b'' 1735689599999])]"
    by code_simp
  then show ?thesis
    using postsByYear_partition [of utc
      "[example_article ''a'' 1751500800000, example_article ''b'' 1735689599999,
        example_article ''c'' 1751846400000]"]
    by (rule conjI)
qed

text \<open>
  Claim C7. Within every year bucket the posts are in non-increasing order of
  \<open>getTime\<close>, newest first: the bucket keyed \<open>y\<close> is the sorted list of articles
  restricted to the year \<open>y\<close>, in the order of the traversal.
\<close>

theorem postsByYear_newest_first:
  "\<exists>obj. postsByYear tza allArticles = Inr obj
     \<and> (\<forall>(y, bucket) \<in> set obj.
           bucket = filter (\<lambda>p. getFullYear tza (date p) = y)
                      (Array_sort by_date_desc allArticles)
           \<and> sorted_wrt (\<lambda>a b. getTime (date a) \<ge> getTime (date b)) bucket)"
proof -
  define kf where "kf = (\<lambda>p::article. getFullYear tza (date p))"
  define sorted_articles where "sorted_articles = Array_sort by_date_desc allArticles"
  define obj where "obj = group_by_key kf sorted_articles []"
  have run: "postsByYear tza allArticles = Inr obj"
    by (simp add: postsByYear_group obj_def kf_def sorted_articles_def)
  have "sorted (map (\<lambda>a. - getTime (date a)) sorted_articles)"
    by (simp add: sorted_articles_def sort_by_date_desc)
  then have desc: "sorted_wrt (\<lambda>a b. getTime (date a) \<ge> getTime (date b)) sorted_articles"
    by (simp add: sorted_map)
  have "bucket = filter (\<lambda>p. kf p = y) sorted_articles
      \<and> sorted_wrt (\<lambda>a b. getTime (date a) \<ge> getTime (date b)) bucket"
    if "(y, bucket) \<in> set obj" for y bucket
  proof -
    from that have eq: "bucket = filter (\<lambda>p. kf p = y) sorted_articles"
      unfolding obj_def by (rule group_by_key_bucket [THEN conjunct1])
    from desc have "sorted_wrt (\<lambda>a b. getTime (date a) \<ge> getTime (date b))
        (filter (\<lambda>p. kf p = y) sorted_articles)"
      by (rule sorted_wrt_filter)
    with eq show ?thesis by simp
  qed
  with run show ?thesis
    unfolding kf_def sorted_articles_def by blast
qed

theorem postsByYear_newest_first_witness:
  "postsByYear cet
      [example_article ''old'' 1735689599999, example_article ''mid'' 1751500800000,
       example_article ''new'' 1751846400000, example_article ''mid2'' 1751500800000]
    = Inr [(2025, [example_article ''new'' 1751846400000, example_article ''mid'' 1751500800000,
                   example_article ''mid2'' 1751500800000, example_article ''old'' 1735689599999])]
   \<and> (\<exists>obj. postsByYear cet
          [example_article ''old'' 1735689599999, example_article ''mid'' 1751500800000,
           example_article ''new'' 1751846400000, example_article ''mid2'' 1751500800000] = Inr obj
     \<and> (\<forall>(y, bucket) \<in> set obj.
           bucket = filter (\<lambda>p. getFullYear cet (date p) = y)
                      (Array_sort by_date_desc
                        [example_article ''old'' 1735689599999, example_article ''mid'' 1751500800000,
                         example_article ''new'' 1751846400000, example_article ''mid2'' 1751500800000])
           \<and> sorted_wrt (\<lambda>a b. getTime (date a) \<ge> getTime (date b)) bucket))"
proof -
  have "postsByYear cet
      [example_article ''old'' 1735689599999, example_article ''mid'' 1751500800000,
       example_article ''new'' 1751846400000, example_article ''mid2'' 1751500800000]
    = Inr [(2025, [example_article ''new'' 1751846400000, example_article ''mid'' 1751500800000,
                   example_article ''mid2'' 1751500800000, example_article ''old'' 1735689599999])]"
    by code_simp
  then show ?thesis
    using postsByYear_newest_first [of cet
      "[example_article ''old'' 1735689599999, example_article ''mid'' 1751500800000,
        example_article ''new'' 1751846400000, example_article ''mid2'' 1751500800000]"]
    by (rule conjI)
qed

subsection \<open>The order of the year sections\<close>

lemma sort_by_year_desc:
  "Array_sort by_year_desc es = sort_key (\<lambda>p. - fst p) es"
  by (rule Array_sort_sort_key) (simp add: by_year_desc_def)

lemma mset_Object_entries: "mset (Object_entries obj) = mset obj"
  by (simp add: Object_entries_def)

lemma years_year_sections:
  "map year (year_sections obj) = map fst (Array_sort by_year_desc (Object_entries obj))"
proof -
  have "map year (year_sections obj) =
      map (fst \<circ> snd) (enumerate 0 (Array_sort by_year_desc (Object_entries obj)))"
    by (simp add: year_sections_def case_prod_beta comp_def)
  then show ?thesis
    by (simp add: map_snd_enumerate flip: map_map)
qed

lemma decreasing_keys:
  assumes "distinct (map fst obj)"
  shows "sorted_wrt (>) (map fst (Array_sort by_year_desc (Object_entries obj)))"
proof -
  let ?es = "sort_key (\<lambda>p. - fst p) (Object_entries obj)"
  have "mset (map fst ?es) = mset (map fst obj)"
    by (simp add: mset_Object_entries)
  with assms have "distinct (map fst ?es)"
    by (metis mset_eq_imp_distinct_iff)
  then have "distinct (map uminus (map fst ?es))"
    by (simp add: distinct_map inj_on_def)
  moreover have "sorted (map uminus (map fst ?es))"
    using sorted_sort_key [of "\<lambda>p. - fst p" "Object_entries obj"] by (simp add: comp_def)
  ultimately have "sorted_wrt (<) (map uminus (map fst ?es))"
    by (simp add: strict_sorted_iff)
  then have "sorted_wrt (\<lambda>a b. - a < - b) (map fst ?es)"
    by (simp only: sorted_wrt_map)
  then show ?thesis
    by (simp add: sort_by_year_desc)
qed

text \<open>
  Claim C8. The rendered page lists the year sections in strictly decreasing order of
  the year: the year of a section is greater than the year of every later section, in
  particular of the next one.
\<close>

theorem Posts_years_decreasing:
  "\<exists>page. Posts tza allArticles = Inr page
     \<and> sorted_wrt (>) (map year (sections page))
     \<and> (\<forall>i. Suc i < length (sections page) \<longrightarrow>
           year (sections page ! i) > year (sections page ! Suc i))"
proof -
  define obj where
    "obj = group_by_key (\<lambda>p. getFullYear tza (date p)) (Array_sort by_date_desc allArticles) []"
  define page where
    "page = \<lparr>heading = ''Article'', lead = ''Deep and technical writings.'',
             sections = year_sections obj\<rparr>"
  have run: "Posts tza allArticles = Inr page"
    by (simp add: Posts_def postsByYear_group obj_def page_def)
  have "distinct (map fst obj)"
    unfolding obj_def by (rule distinct_group_by_key) simp
  then have desc: "sorted_wrt (>) (map year (sections page))"
    by (simp add: page_def years_year_sections decreasing_keys)
  have "year (sections page ! i) > year (sections page ! Suc i)"
    if "Suc i < length (sections page)" for i
  proof -
    from that have "map year (sections page) ! i > map year (sections page) ! Suc i"
      using desc by (simp add: sorted_wrt_iff_nth_less)
    with that show ?thesis by simp
  qed
  with run desc show ?thesis by blast
qed

theorem Posts_years_decreasing_witness:
  "map year (sections (projr (Posts utc
      [example_article ''x'' (- 62198755200000), example_article ''y'' 1735689599999,
       example_article ''z'' 1751846400000, example_article ''w'' (- 62167219200001)])))
     = [2025, 2024, - 1]
   \<and> (\<exists>page. Posts utc
      [example_article ''x'' (- 62198755200000), example_article ''y'' 1735689599999,
       example_article ''z'' 1751846400000, example_article ''w'' (- 62167219200001)] = Inr page
     \<and> sorted_wrt (>) (map year (sections page))
     \<and> (\<forall>i. Suc i < length (sections page) \<longrightarrow>
           year (sections page ! i) > year (sections page ! Suc i)))"
proof -
  have "map year (sections (projr (Posts utc
      [example_article ''x'' (- 62198755200000), example_article ''y'' 1735689599999,
       example_article ''z'' 1751846400000, example_article ''w'' (- 62167219200001)])))
     = [2025, 2024, - 1]"
    by code_simp
  then show ?thesis
    using Posts_years_decreasing [of utc
      "[example_article ''x'' (- 62198755200000), example_article ''y'' 1735689599999,
        example_article ''z'' 1751846400000, example_article ''w'' (- 62167219200001)]"]
    by (rule conjI)
qed

section \<open>Properties of the transforms\<close>

lemma replace_backslash_map:
  "replace_all_char (CHR 0x5C) ''/'' s = map (\<lambda>c. if c = CHR 0x5C then CHR ''/'' else c) s"
  by (induction s) (simp_all add: replace_all_char_def)

lemma replace_backslash_free: "CHR 0x5C \<notin> set (replace_all_char (CHR 0x5C) ''/'' s)"
  by (auto simp: replace_backslash_map)

lemma example_post_runs:
  "\<exists>a. posts_transform example_compileMDX example_readingTime (example_post ''# Hello'') () = Inr a"
  by (simp add: posts_transform_def example_compileMDX_def example_post_def Document.truncate_def
        Document.defs page_document.defs post_document.defs Let_def)

lemma example_page_runs:
  "\<exists>p. pages_transform example_compileMDX (example_page ''# About'') () = Inr p"
  by (simp add: pages_transform_def example_compileMDX_def example_page_def Document.truncate_def
        Document.defs page_document.defs Let_def)

text \<open>
  Claim C2. The posts collection computes the reading time: the object that the posts
  transform returns has a \<open>readingTime\<close> field equal to the \<open>text\<close> of the reading-time
  estimate of the raw content of the post.
\<close>

theorem posts_transform_readingTime:
  "posts_transform compileMDX readingTime_of page context = Inr post \<Longrightarrow>
     readingTime post = rt_text (readingTime_of (content page))"
  by (auto simp: posts_transform_def Let_def split: sum.splits)

theorem posts_transform_readingTime_witness:
  "\<exists>post. posts_transform example_compileMDX example_readingTime (example_post ''# Hello'') ()
             = Inr post
      \<and> readingTime post = rt_text (example_readingTime (content (example_post ''# Hello'')))
      \<and> readingTime post = ''1 min read''"
proof -
  from example_post_runs obtain post where
    run: "posts_transform example_compileMDX example_readingTime (example_post ''# Hello'') ()
            = Inr post"
    by blast
  from posts_transform_readingTime [OF run]
  have rt: "readingTime post = rt_text (example_readingTime (content (example_post ''# Hello'')))" .
  then have "readingTime post = ''1 min read''"
    by (simp add: example_readingTime_def example_post_def)
  with run rt show ?thesis by blast
qed

text \<open>
  Claim C3. Both collections compile MDX: the \<open>body\<close> of what a transform returns is the
  result of \<open>compileMDX\<close> on that document with \<open>remarkGfm\<close> as the remark plugin and
  \<open>rehypeCode\<close>, with the light and dark themes of the configuration, and
  \<open>remarkHeading\<close> as the rehype plugins.
\<close>

theorem transforms_compile_body:
  "(pages_transform compileMDX pg context = Inr p \<longrightarrow>
      compileMDX context (Document.truncate pg)
        \<lparr>remarkPlugins = [Plugin remarkGfm],
         rehypePlugins =
           [PluginWith rehypeCode
              \<lparr>themes = \<lparr>light = ''github-light'', dark = ''github-dark-default''\<rparr>\<rparr>,
            Plugin remarkHeading]\<rparr>
        = Inr (page.body p))
   \<and> (posts_transform compileMDX readingTime_of pst context = Inr a \<longrightarrow>
      compileMDX context (Document.truncate pst)
        \<lparr>remarkPlugins = [Plugin remarkGfm],
         rehypePlugins =
           [PluginWith rehypeCode
              \<lparr>themes = \<lparr>light = ''github-light'', dark = ''github-dark-default''\<rparr>\<rparr>,
            Plugin remarkHeading]\<rparr>
        = Inr (article.body a))"
  by (auto simp: pages_transform_def posts_transform_def rehypeCodeOptions_def Let_def
        split: sum.splits)

theorem transforms_compile_body_witness:
  "\<exists>p a. pages_transform example_compileMDX (example_page ''# About'') () = Inr p
      \<and> posts_transform example_compileMDX example_readingTime (example_post ''# Hello'') ()
           = Inr a
      \<and> page.body p = ''<article># About</article>''
      \<and> article.body a = ''<article># Hello</article>''"
proof -
  from example_page_runs obtain p where
    run1: "pages_transform example_compileMDX (example_page ''# About'') () = Inr p"
    by blast
  from example_post_runs obtain a where
    run2: "posts_transform example_compileMDX example_readingTime (example_post ''# Hello'') ()
            = Inr a"
    by blast
  from transforms_compile_body
    [of example_compileMDX "example_page ''# About''" "()" p example_readingTime
        "example_post ''# Hello''" a] run1 run2
  have "example_compileMDX () (Document.truncate (example_page ''# About''))
        \<lparr>remarkPlugins = [Plugin remarkGfm],
         rehypePlugins =
           [PluginWith rehypeCode
              \<lparr>themes = \<lparr>light = ''github-light'', dark = ''github-dark-default''\<rparr>\<rparr>,
            Plugin remarkHeading]\<rparr> = Inr (page.body p)"
    and "example_compileMDX () (Document.truncate (example_post ''# Hello''))
        \<lparr>remarkPlugins = [Plugin remarkGfm],
         rehypePlugins =
           [PluginWith rehypeCode
              \<lparr>themes = \<lparr>light = ''github-light'', dark = ''github-dark-default''\<rparr>\<rparr>,
            Plugin remarkHeading]\<rparr> = Inr (article.body a)"
    by blast+
  then have "page.body p = ''<article># About</article>''"
    and "article.body a = ''<article># Hello</article>''"
    by (simp_all add: example_compileMDX_def example_page_def example_post_def
          Document.truncate_def Document.defs page_document.defs post_document.defs)
  with run1 run2 show ?thesis by blast
qed

text \<open>
  Claim C9. Both transforms normalize the path: the returned \<open>_meta.path\<close> is the path
  of the input with every backslash replaced by a forward slash, so it has no backslash,
  and the \<open>slug\<close> of a post is that same path.
\<close>

theorem transforms_normalize_path:
  "(pages_transform compileMDX pg context = Inr p \<longrightarrow>
      path (meta p) = map (\<lambda>c. if c = CHR 0x5C then CHR ''/'' else c) (path (meta pg))
      \<and> CHR 0x5C \<notin> set (path (meta p)))
   \<and> (posts_transform compileMDX readingTime_of pst context = Inr a \<longrightarrow>
      path (meta a) = map (\<lambda>c. if c = CHR 0x5C then CHR ''/'' else c) (path (meta pst))
      \<and> CHR 0x5C \<notin> set (path (meta a))
      \<and> slug a = path (meta a))"
proof (intro conjI impI)
  assume "pages_transform compileMDX pg context = Inr p"
  then have eq: "path (meta p) = replace_all_char (CHR 0x5C) ''/'' (path (meta pg))"
    by (auto simp: pages_transform_def split: sum.splits)
  show "path (meta p) = map (\<lambda>c. if c = CHR 0x5C then CHR ''/'' else c) (path (meta pg))"
    by (simp only: eq replace_backslash_map)
  show "CHR 0x5C \<notin> set (path (meta p))"
    by (simp only: eq replace_backslash_free not_False_eq_True)
next
  assume "posts_transform compileMDX readingTime_of pst context = Inr a"
  then have eq: "path (meta a) = replace_all_char (CHR 0x5C) ''/'' (path (meta pst))"
    and sl: "slug a = replace_all_char (CHR 0x5C) ''/'' (path (meta pst))"
    by (auto simp: posts_transform_def Let_def split: sum.splits)
  show "path (meta a) = map (\<lambda>c. if c = CHR 0x5C then CHR ''/'' else c) (path (meta pst))"
    by (simp only: eq replace_backslash_map)
  show "CHR 0x5C \<notin> set (path (meta a))"
    by (simp only: eq replace_backslash_free not_False_eq_True)
  show "slug a = path (meta a)"
    by (simp only: eq sl)
qed

theorem transforms_normalize_path_witness:
  "\<exists>p a. pages_transform example_compileMDX (example_page ''# About'') () = Inr p
      \<and> posts_transform example_compileMDX example_readingTime (example_post ''# Hello'') ()
           = Inr a
      \<and> path (meta p) = ''pages/about''
      \<and> path (meta a) = ''blog/2025/hello''
      \<and> slug a = ''blog/2025/hello''"
proof -
  from example_page_runs obtain p where
    run1: "pages_transform example_compileMDX (example_page ''# About'') () = Inr p"
    by blast
  from example_post_runs obtain a where
    run2: "posts_transform example_compileMDX example_readingTime (example_post ''# Hello'') ()
            = Inr a"
    by blast
  from transforms_normalize_path
    [of example_compileMDX "example_page ''# About''" "()" p example_readingTime
        "example_post ''# Hello''" a] run1 run2
  have "path (meta p) =
      map (\<lambda>c. if c = CHR 0x5C then CHR ''/'' else c) (path (meta (example_page ''# About'')))"
    and "path (meta a) =
      map (\<lambda>c. if c = CHR 0x5C then CHR ''/'' else c) (path (meta (example_post ''# Hello'')))"
    and "slug a = path (meta a)"
    by blast+
  then have "path (meta p) = ''pages/about''" and "path (meta a) = ''blog/2025/hello''"
    and "slug a = ''blog/2025/hello''"
    by (simp_all add: example_page_def example_post_def)
  with run1 run2 show ?thesis by blast
qed

subsection \<open>Failures\<close>

lemma pages_transform_Inl:
  "(pages_transform compileMDX pg context = Inl e) =
   (compileMDX context (Document.truncate pg)
      \<lparr>remarkPlugins = [Plugin remarkGfm],
       rehypePlugins = [PluginWith rehypeCode rehypeCodeOptions, Plugin remarkHeading]\<rparr> = Inl e)"
  by (simp add: pages_transform_def split: sum.splits)

lemma posts_transform_Inl:
  "(posts_transform compileMDX readingTime_of pst context = Inl e) =
   (compileMDX context (Document.truncate pst)
      \<lparr>remarkPlugins = [Plugin remarkGfm],
       rehypePlugins = [PluginWith rehypeCode rehypeCodeOptions, Plugin remarkHeading]\<rparr> = Inl e)"
  by (simp add: posts_transform_def Let_def split: sum.splits)

lemma pages_transform_Inr:
  "(\<exists>p. pages_transform compileMDX pg context = Inr p) =
   (\<exists>b. compileMDX context (Document.truncate pg)
      \<lparr>remarkPlugins = [Plugin remarkGfm],
       rehypePlugins = [PluginWith rehypeCode rehypeCodeOptions, Plugin remarkHeading]\<rparr> = Inr b)"
  by (simp add: pages_transform_def split: sum.splits)

lemma posts_transform_Inr:
  "(\<exists>a. posts_transform compileMDX readingTime_of pst context = Inr a) =
   (\<exists>b. compileMDX context (Document.truncate pst)
      \<lparr>remarkPlugins = [Plugin remarkGfm],
       rehypePlugins = [PluginWith rehypeCode rehypeCodeOptions, Plugin remarkHeading]\<rparr> = Inr b)"
  by (simp add: posts_transform_def Let_def split: sum.splits)

text \<open>
  Claim C4, as stated: the grouping and the transforms have no failure handling and
  succeed on every input. The posts transform does not succeed on a post that the
  compiler rejects: the rejection passes through the transform.
\<close>

theorem posts_transform_fails:
  "posts_transform example_compileMDX example_readingTime (example_post ''# Hello <'') ()
     = Inl ''Unexpected end of file''"
  by (simp add: posts_transform_def example_compileMDX_def example_post_def
        Document.truncate_def Document.defs page_document.defs post_document.defs)

text \<open>
  Claim C4, amended. The computation of \<open>postsByYear\<close> and the rendering of the page
  succeed for every list of articles. A transform has no error branch of its own: it
  fails exactly when its call of \<open>compileMDX\<close> fails, with the error of that call, and it
  returns a document exactly when \<open>compileMDX\<close> returns a body.
\<close>

theorem no_failure_handling:
  "(\<exists>obj. postsByYear tza allArticles = Inr obj)
   \<and> (\<exists>rendered. Posts tza allArticles = Inr rendered)
   \<and> ((pages_transform compileMDX pg context = Inl e) =
        (compileMDX context (Document.truncate pg)
           \<lparr>remarkPlugins = [Plugin remarkGfm],
            rehypePlugins = [PluginWith rehypeCode rehypeCodeOptions, Plugin remarkHeading]\<rparr>
         = Inl e))
   \<and> ((\<exists>p. pages_transform compileMDX pg context = Inr p) =
        (\<exists>b. compileMDX context (Document.truncate pg)
           \<lparr>remarkPlugins = [Plugin remarkGfm],
            rehypePlugins = [PluginWith rehypeCode rehypeCodeOptions, Plugin remarkHeading]\<rparr>
         = Inr b))
   \<and> ((posts_transform compileMDX readingTime_of pst context = Inl e) =
        (compileMDX context (Document.truncate pst)
           \<lparr>remarkPlugins = [Plugin remarkGfm],
            rehypePlugins = [PluginWith rehypeCode rehypeCodeOptions, Plugin remarkHeading]\<rparr>
         = Inl e))
   \<and> ((\<exists>a. posts_transform compileMDX readingTime_of pst context = Inr a) =
        (\<exists>b. compileMDX context (Document.truncate pst)
           \<lparr>remarkPlugins = [Plugin remarkGfm],
            rehypePlugins = [PluginWith rehypeCode rehypeCodeOptions, Plugin remarkHeading]\<rparr>
         = Inr b))"
proof (intro conjI)
  show "\<exists>obj. postsByYear tza allArticles = Inr obj"
    by (simp add: postsByYear_group)
  show "\<exists>rendered. Posts tza allArticles = Inr rendered"
    by (simp add: Posts_def postsByYear_group)
qed (rule pages_transform_Inl pages_transform_Inr posts_transform_Inl posts_transform_Inr)+

theorem no_failure_handling_witness:
  "(\<exists>obj. postsByYear utc [example_article ''a'' 1751500800000, example_article ''b'' 0] = Inr obj)
   \<and> pages_transform example_compileMDX (example_page ''# About <'') ()
       = Inl ''Unexpected end of file''
   \<and> (\<exists>a. posts_transform example_compileMDX example_readingTime (example_post ''# Hello'') ()
       = Inr a)"
proof -
  have fails: "example_compileMDX () (Document.truncate (example_page ''# About <''))
      \<lparr>remarkPlugins = [Plugin remarkGfm],
       rehypePlugins = [PluginWith rehypeCode rehypeCodeOptions, Plugin remarkHeading]\<rparr>
     = Inl ''Unexpected end of file''"
    by (simp add: example_compileMDX_def example_page_def Document.truncate_def
          Document.defs page_document.defs)
  have succeeds: "\<exists>b. example_compileMDX () (Document.truncate (example_post ''# Hello''))
      \<lparr>remarkPlugins = [Plugin remarkGfm],
       rehypePlugins = [PluginWith rehypeCode rehypeCodeOptions, Plugin remarkHeading]\<rparr>
     = Inr b"
    by (simp add: example_compileMDX_def example_post_def Document.truncate_def
          Document.defs page_document.defs post_document.defs)
  from no_failure_handling
    [of utc "[example_article ''a'' 1751500800000, example_article ''b'' 0]"
        example_compileMDX "example_page ''# About <''" "()" "''Unexpected end of file''"
        example_readingTime "example_post ''# Hello''"]
    fails succeeds
  show ?thesis by blast
qed

section \<open>Properties of the components\<close>

subsection \<open>The clock\<close>

lemma find_append_None:
  "find P xs = None \<Longrightarrow> find P (xs @ ys) = find P ys"
  by (induction xs) (simp_all split: if_splits)

lemma find_fresh_handle:
  assumes "timers_ok ts"
  shows "find (\<lambda>i. handle i = next_handle ts) (intervals ts @ [j\<lparr>handle := next_handle ts\<rparr>])
           = Some (j\<lparr>handle := next_handle ts\<rparr>)"
proof -
  from assms have "\<forall>i \<in> set (intervals ts). handle i \<noteq> next_handle ts"
    by (auto simp: timers_ok_def list_all_iff)
  then have "find (\<lambda>i. handle i = next_handle ts) (intervals ts) = None"
    by (simp add: find_None_iff)
  then show ?thesis
    by (simp add: find_append_None)
qed

lemma filter_fresh_handle:
  assumes "timers_ok ts"
  shows "filter (\<lambda>i. handle i \<noteq> next_handle ts) (intervals ts) = intervals ts"
  using assms by (auto simp: timers_ok_def list_all_iff filter_id_conv)

lemma run_registered:
  assumes "timers_ok ts"
  shows "run_interval (next_handle ts) t
           (s, snd (setInterval cb ms ts)) = (cb t s, snd (setInterval cb ms ts))"
  using find_fresh_handle [OF assms, of "\<lparr>handle = next_handle ts, delay = ms, callback = cb\<rparr>"]
  by (simp add: run_interval_def setInterval_def)

lemma run_cleared:
  "run_interval h t (s, clearInterval h ts) = (s, clearInterval h ts)"
proof -
  have "find (\<lambda>i. handle i = h) (filter (\<lambda>i. handle i \<noteq> h) (intervals ts)) = None"
    by (simp add: find_None_iff)
  then show ?thesis
    by (simp add: run_interval_def clearInterval_def)
qed

lemma timers_ok_setInterval:
  "timers_ok ts \<Longrightarrow> timers_ok (snd (setInterval cb ms ts))"
  by (auto simp: timers_ok_def setInterval_def list_all_iff)

lemma timers_ok_clearInterval:
  "timers_ok ts \<Longrightarrow> timers_ok (clearInterval h ts)"
  by (auto simp: timers_ok_def clearInterval_def list_all_iff)

lemma run_registered_ticks:
  assumes "timers_ok ts"
  shows "fold (run_interval (next_handle ts)) ticks
           (s, snd (setInterval (\<lambda>now s. s\<lparr>time := now\<rparr>) ms ts))
         = (s\<lparr>time := last (time s # ticks)\<rparr>,
            snd (setInterval (\<lambda>now s. s\<lparr>time := now\<rparr>) ms ts))"
proof (induction ticks arbitrary: s)
  case Nil
  then show ?case by simp
next
  case (Cons t ticks)
  have "fold (run_interval (next_handle ts)) (t # ticks)
          (s, snd (setInterval (\<lambda>now s. s\<lparr>time := now\<rparr>) ms ts))
        = fold (run_interval (next_handle ts)) ticks
          (s\<lparr>time := t\<rparr>, snd (setInterval (\<lambda>now s. s\<lparr>time := now\<rparr>) ms ts))"
    by (simp add: run_registered [OF assms])
  also have "\<dots> = ((s\<lparr>time := t\<rparr>)\<lparr>time := last (time (s\<lparr>time := t\<rparr>) # ticks)\<rparr>,
            snd (setInterval (\<lambda>now s. s\<lparr>time := now\<rparr>) ms ts))"
    by (rule Cons.IH)
  finally show ?case by simp
qed

text \<open>
  Claim C5. The clock shows the time of its state: for every state, \<open>LocalTime\<close> renders
  the \<open>time\<close> of the state formatted for the locale \<open>de-DE\<close> in the time zone
  \<open>Europe/Berlin\<close> with two-digit hour, minute and second. Mounting sets \<open>time\<close> to the
  clock reading and registers one interval of 1000 milliseconds; each run of that
  interval replaces \<open>time\<close> by the clock reading of the run, and the interval stays
  registered; unmounting clears it, leaving the other timers as they were, and a run of
  the cleared handle changes nothing. The timers stay well formed throughout.
\<close>

theorem LocalTime_clock:
  assumes "timers_ok ts" and "LocalTime_mount now ts = (s0, ts1)"
  shows "children (LocalTime_render format s) =
           format ''de-DE''
             \<lparr>hour = ''2-digit'', minute = ''2-digit'', second = ''2-digit'',
              timeZone = ''Europe/Berlin''\<rparr> (time s)
    \<and> time s0 = now
    \<and> (\<exists>i. intervals ts1 = intervals ts @ [i] \<and> handle i = interval s0 \<and> delay i = 1000)
    \<and> run_interval (interval s0) t (s, ts1) = (s\<lparr>time := t\<rparr>, ts1)
    \<and> fold (run_interval (interval s0)) ticks (s0, ts1)
         = (s0\<lparr>time := last (now # ticks)\<rparr>, ts1)
    \<and> intervals (LocalTime_unmount s0 ts1) = intervals ts
    \<and> run_interval (interval s0) t (s, LocalTime_unmount s0 ts1)
           = (s, LocalTime_unmount s0 ts1)
    \<and> timers_ok ts1 \<and> timers_ok (LocalTime_unmount s0 ts1)"
proof (intro conjI)
  from assms(2) have s0: "s0 = \<lparr>time = now, interval = next_handle ts\<rparr>"
    and ts1: "ts1 = snd (setInterval (\<lambda>now s. s\<lparr>time := now\<rparr>) 1000 ts)"
    by (auto simp: LocalTime_mount_def setInterval_def Let_def)
  show "children (LocalTime_render format s) =
           format ''de-DE''
             \<lparr>hour = ''2-digit'', minute = ''2-digit'', second = ''2-digit'',
              timeZone = ''Europe/Berlin''\<rparr> (time s)"
    by (simp add: LocalTime_render_def)
  show "time s0 = now"
    by (simp add: s0)
  show "\<exists>i. intervals ts1 = intervals ts @ [i] \<and> handle i = interval s0 \<and> delay i = 1000"
    by (simp add: s0 ts1 setInterval_def)
  show "run_interval (interval s0) t (s, ts1) = (s\<lparr>time := t\<rparr>, ts1)"
    using run_registered [OF assms(1), of t s "\<lambda>now s. s\<lparr>time := now\<rparr>" 1000]
    by (simp add: s0 ts1)
  show "fold (run_interval (interval s0)) ticks (s0, ts1)
         = (s0\<lparr>time := last (now # ticks)\<rparr>, ts1)"
    using run_registered_ticks [OF assms(1), of ticks s0 1000]
    by (simp add: s0 ts1)
  show "intervals (LocalTime_unmount s0 ts1) = intervals ts"
    using filter_fresh_handle [OF assms(1)]
    by (simp add: LocalTime_unmount_def clearInterval_def s0 ts1 setInterval_def)
  show "run_interval (interval s0) t (s, LocalTime_unmount s0 ts1)
           = (s, LocalTime_unmount s0 ts1)"
    unfolding LocalTime_unmount_def by (rule run_cleared)
  show ok1: "timers_ok ts1"
    unfolding ts1 using assms(1) by (rule timers_ok_setInterval)
  show "timers_ok (LocalTime_unmount s0 ts1)"
    unfolding LocalTime_unmount_def using ok1 by (rule timers_ok_clearInterval)
qed

theorem LocalTime_clock_witness:
  "timers_ok (\<lparr>intervals = [\<lparr>handle = 3, delay = 50, callback = (\<lambda>now s. s)\<rparr>],
                next_handle = 4\<rparr> :: LocalTime_state Timers)
   \<and> fst (LocalTime_mount (Date 1735726332000)
        \<lparr>intervals = [\<lparr>handle = 3, delay = 50, callback = (\<lambda>now s. s)\<rparr>], next_handle = 4\<rparr>)
       = \<lparr>time = Date 1735726332000, interval = 4\<rparr>
   \<and> children (LocalTime_render example_format \<lparr>time = Date 1735726332000, interval = 4\<rparr>)
       = ''11:12:12''
   \<and> fst (fold (run_interval 4) [Date 1735726333004, Date 1735726334009]
        (LocalTime_mount (Date 1735726332000)
          \<lparr>intervals = [\<lparr>handle = 3, delay = 50, callback = (\<lambda>now s. s)\<rparr>], next_handle = 4\<rparr>))
       = \<lparr>time = Date 1735726334009, interval = 4\<rparr>
   \<and> map delay (intervals (LocalTime_unmount \<lparr>time = Date 1735726332000, interval = 4\<rparr>
        (snd (LocalTime_mount (Date 1735726332000)
          \<lparr>intervals = [\<lparr>handle = 3, delay = 50, callback = (\<lambda>now s. s)\<rparr>], next_handle = 4\<rparr>))))
       = [50]"
proof -
  define ts :: "LocalTime_state Timers" where
    "ts = \<lparr>intervals = [\<lparr>handle = 3, delay = 50, callback = (\<lambda>now s. s)\<rparr>], next_handle = 4\<rparr>"
  define s0 where "s0 = fst (LocalTime_mount (Date 1735726332000) ts)"
  define ts1 where "ts1 = snd (LocalTime_mount (Date 1735726332000) ts)"
  have ok: "timers_ok ts"
    by (simp add: ts_def timers_ok_def)
  have mount: "LocalTime_mount (Date 1735726332000) ts = (s0, ts1)"
    by (simp add: s0_def ts1_def)
  have s0: "s0 = \<lparr>time = Date 1735726332000, interval = 4\<rparr>"
    by (simp add: s0_def ts_def LocalTime_mount_def setInterval_def)
  have h4: "interval s0 = 4"
    by (simp add: s0)
  have shows_time: "example_format ''de-DE''
      \<lparr>hour = ''2-digit'', minute = ''2-digit'', second = ''2-digit'',
       timeZone = ''Europe/Berlin''\<rparr> (Date 1735726332000) = ''11:12:12''"
    by code_simp
  note facts = LocalTime_clock [OF ok mount, of example_format s0 "Date 1735726333004"
      "[Date 1735726333004, Date 1735726334009]"]
  from facts have "children (LocalTime_render example_format s0) =
      example_format ''de-DE''
        \<lparr>hour = ''2-digit'', minute = ''2-digit'', second = ''2-digit'',
         timeZone = ''Europe/Berlin''\<rparr> (time s0)"
    by blast
  also have "time s0 = Date 1735726332000"
    by (simp add: s0)
  finally have "children (LocalTime_render example_format s0) = ''11:12:12''"
    by (simp only: shows_time)
  then have shown: "children (LocalTime_render example_format
      \<lparr>time = Date 1735726332000, interval = 4\<rparr>) = ''11:12:12''"
    by (simp only: s0)
  from facts have "fold (run_interval (interval s0)) [Date 1735726333004, Date 1735726334009]
      (s0, ts1) = (s0\<lparr>time := last [Date 1735726332000, Date 1735726333004, Date 1735726334009]\<rparr>, ts1)"
    by blast
  then have "fst (fold (run_interval 4) [Date 1735726333004, Date 1735726334009]
      (LocalTime_mount (Date 1735726332000) ts)) =
      s0\<lparr>time := last [Date 1735726332000, Date 1735726333004, Date 1735726334009]\<rparr>"
    by (simp only: h4 mount fst_conv)
  also have "\<dots> = \<lparr>time = Date 1735726334009, interval = 4\<rparr>"
    by (simp add: s0)
  finally have refreshed: "fst (fold (run_interval 4) [Date 1735726333004, Date 1735726334009]
      (LocalTime_mount (Date 1735726332000) ts)) = \<lparr>time = Date 1735726334009, interval = 4\<rparr>" .
  from facts have "intervals (LocalTime_unmount s0 ts1) = intervals ts"
    by blast
  then have "map delay (intervals (LocalTime_unmount s0 ts1)) = [50]"
    by (simp add: ts_def)
  then have cleared: "map delay (intervals (LocalTime_unmount
      \<lparr>time = Date 1735726332000, interval = 4\<rparr>
      (snd (LocalTime_mount (Date 1735726332000) ts)))) = [50]"
    by (simp only: s0 ts1_def)
  from s0 have mounted: "fst (LocalTime_mount (Date 1735726332000) ts)
      = \<lparr>time = Date 1735726332000, interval = 4\<rparr>"
    by (simp only: s0_def)
  from ok mounted shown refreshed cleared show ?thesis
    unfolding ts_def by (intro conjI)
qed

subsection \<open>The JSON-LD injector\<close>

lemma protocol_prefix:
  "takeWhile (\<lambda>c. c \<noteq> CHR '':'') (baseUrl NODE_ENV host) = protocol NODE_ENV"
  by (simp add: baseUrl_def protocol_def)

lemma example_JsonLd_runs:
  "\<exists>el. JsonLd example_URL_href (Some ''production'') ''felixarjuna.dev'' example_social = Inr el"
  by (simp add: JsonLd_def person_def example_URL_href_def baseUrl_def protocol_def)

text \<open>
  Claim C6. The JSON-LD injector renders one \<open>script\<close> element of type
  \<open>application/ld+json\<close>. Its text is the JSON serialization of a schema.org Person:
  \<open>@context\<close> is \<open>https://schema.org\<close>, \<open>@type\<close> is \<open>Person\<close>, \<open>name\<close> is
  \<open>Felix Arjuna\<close>, \<open>sameAs\<close> lists the \<open>href\<close> of each social link, and the protocol of
  \<open>url\<close> is \<open>https\<close> exactly when \<open>NODE_ENV\<close> is \<open>production\<close> and \<open>http\<close> otherwise.
\<close>

theorem JsonLd_script:
  "JsonLd URL_href NODE_ENV VERCEL_PROJECT_PRODUCTION_URL social = Inr el \<Longrightarrow>
     \<exists>url image_href.
       url = (if NODE_ENV = Some ''production'' then ''https'' else ''http'')
               @ ''://'' @ VERCEL_PROJECT_PRODUCTION_URL
     \<and> URL_href ''/profile.png'' url = Inr image_href
     \<and> el = \<lparr>tag = ''script'', attributes = [(''type'', ''application/ld+json'')],
              children = JSON_stringify (JObject
                [(''@context'', JString ''https://schema.org''),
                 (''@type'', JString ''Person''),
                 (''name'', JString ''Felix Arjuna''),
                 (''description'', JString ''Cloud DevOps Engineer''),
                 (''gender'', JString ''male''),
                 (''nationality'', JString ''Indonesian''),
                 (''url'', JString url),
                 (''image'', JString image_href),
                 (''sameAs'', JArray (map (\<lambda>s. JString (href (snd s))) social)),
                 (''alumniOf'', JString ''Aachen University of Applied Sciences'')])\<rparr>
     \<and> (takeWhile (\<lambda>c. c \<noteq> CHR '':'') url = ''https'') = (NODE_ENV = Some ''production'')
     \<and> (takeWhile (\<lambda>c. c \<noteq> CHR '':'') url = ''http'') = (NODE_ENV \<noteq> Some ''production'')"
proof -
  assume run: "JsonLd URL_href NODE_ENV VERCEL_PROJECT_PRODUCTION_URL social = Inr el"
  define url where "url = baseUrl NODE_ENV VERCEL_PROJECT_PRODUCTION_URL"
  have url_eq: "url = (if NODE_ENV = Some ''production'' then ''https'' else ''http'')
               @ ''://'' @ VERCEL_PROJECT_PRODUCTION_URL"
    by (simp add: url_def baseUrl_def protocol_def)
  from run obtain p where p: "person URL_href NODE_ENV VERCEL_PROJECT_PRODUCTION_URL social = Inr p"
    and el: "el = \<lparr>tag = ''script'', attributes = [(''type'', ''application/ld+json'')],
              children = JSON_stringify p\<rparr>"
    by (auto simp: JsonLd_def split: sum.splits)
  from p obtain image_href where img: "URL_href ''/profile.png'' url = Inr image_href"
    and p_eq: "p = JObject
                [(''@context'', JString ''https://schema.org''),
                 (''@type'', JString ''Person''),
                 (''name'', JString ''Felix Arjuna''),
                 (''description'', JString ''Cloud DevOps Engineer''),
                 (''gender'', JString ''male''),
                 (''nationality'', JString ''Indonesian''),
                 (''url'', JString url),
                 (''image'', JString image_href),
                 (''sameAs'', JArray (map (\<lambda>s. JString (href (snd s))) social)),
                 (''alumniOf'', JString ''Aachen University of Applied Sciences'')]"
    by (auto simp: person_def url_def Object_values_def comp_def split: sum.splits)
  have pre: "takeWhile (\<lambda>c. c \<noteq> CHR '':'') url = protocol NODE_ENV"
    by (simp only: url_def protocol_prefix)
  have https: "(takeWhile (\<lambda>c. c \<noteq> CHR '':'') url = ''https'') = (NODE_ENV = Some ''production'')"
    by (simp add: pre protocol_def)
  have http: "(takeWhile (\<lambda>c. c \<noteq> CHR '':'') url = ''http'') = (NODE_ENV \<noteq> Some ''production'')"
    by (simp add: pre protocol_def)
  from url_eq img el p_eq https http show ?thesis
    by blast
qed

theorem JsonLd_script_witness:
  "\<exists>el. JsonLd example_URL_href (Some ''production'') ''felixarjuna.dev'' example_social = Inr el
     \<and> tag el = ''script''
     \<and> attributes el = [(''type'', ''application/ld+json'')]
     \<and> children el = JSON_stringify (JObject
          [(''@context'', JString ''https://schema.org''),
           (''@type'', JString ''Person''),
           (''name'', JString ''Felix Arjuna''),
           (''description'', JString ''Cloud DevOps Engineer''),
           (''gender'', JString ''male''),
           (''nationality'', JString ''Indonesian''),
           (''url'', JString ''https://felixarjuna.dev''),
           (''image'', JString ''https://felixarjuna.dev/profile.png''),
           (''sameAs'', JArray [JString ''https://github.com/felixarjuna'',
                                JString ''https://www.linkedin.com/in/felixarjuna'']),
           (''alumniOf'', JString ''Aachen University of Applied Sciences'')])"
proof -
  from example_JsonLd_runs obtain el where
    run: "JsonLd example_URL_href (Some ''production'') ''felixarjuna.dev'' example_social = Inr el"
    by blast
  from JsonLd_script [OF run] obtain url image_href where
    "url = ''https://felixarjuna.dev''"
    and "example_URL_href ''/profile.png'' url = Inr image_href"
    and el: "el = \<lparr>tag = ''script'', attributes = [(''type'', ''application/ld+json'')],
              children = JSON_stringify (JObject
                [(''@context'', JString ''https://schema.org''),
                 (''@type'', JString ''Person''),
                 (''name'', JString ''Felix Arjuna''),
                 (''description'', JString ''Cloud DevOps Engineer''),
                 (''gender'', JString ''male''),
                 (''nationality'', JString ''Indonesian''),
                 (''url'', JString url),
                 (''image'', JString image_href),
                 (''sameAs'', JArray (map (\<lambda>s. JString (href (snd s))) example_social)),
                 (''alumniOf'', JString ''Aachen University of Applied Sciences'')])\<rparr>"
    by auto
  then have "image_href = ''https://felixarjuna.dev/profile.png''"
    by (simp add: example_URL_href_def)
  with el \<open>url = ''https://felixarjuna.dev''\<close> run show ?thesis
    by (simp add: example_social_def)
qed

end
